theory Spec2Isabelle
  imports Main
begin

section \<open>Values, errors and promises\<close>

text \<open>
  The payload handed to \<open>new Block(data)\<close> and the value that \<open>JSON.parse\<close> gives back are
  JavaScript values of the JSON fragment. An object is the list of its own properties in
  insertion order. Numbers are kept as integers: no claim depends on a fractional payload.
\<close>

datatype json =
    JNull
  | JBool bool
  | JNum int
  | JStr string
  | JArr "json list"
  | JObj "(string \<times> json) list"

text \<open>
  An exception is a value. \<open>Thrown\<close> is an exception raised by the runtime or by a
  library function (a \<open>TypeError\<close>, the \<open>SyntaxError\<close> of \<open>JSON.parse\<close>, whatever
  \<open>bitcoinMessage.verify\<close> throws); \<open>Error m\<close> is \<open>new Error("m")\<close> with a literal
  message; \<open>ErrorOf e\<close> is \<open>new Error(err)\<close>, whose message is the text of the caught
  exception \<open>e\<close>.
\<close>

datatype error =
    Thrown
  | Error string
  | ErrorOf error

text \<open>
  Every method of the two classes is an \<open>async\<close> function (or returns \<open>new Promise\<close>): the
  caller receives a promise object, settled either way.
\<close>

datatype 'a promise =
    Fulfilled 'a
  | Rejected error

text \<open>
  \<open>ToBoolean\<close> of a promise object: an object is truthy, whatever the promise is settled
  with. This is what \<open>!block.validate()\<close> negates.
\<close>

definition ToBoolean_promise :: "'a promise \<Rightarrow> bool" where
  "ToBoolean_promise p = True"

text \<open>\<open>ToBoolean\<close> of a parsed JSON value, as in \<open>data && ...\<close>.\<close>

fun ToBoolean :: "json \<Rightarrow> bool" where
  "ToBoolean JNull = False"
| "ToBoolean (JBool b) = b"
| "ToBoolean (JNum n) = (n \<noteq> 0)"
| "ToBoolean (JStr s) = (s \<noteq> [])"
| "ToBoolean (JArr xs) = True"
| "ToBoolean (JObj kvs) = True"

text \<open>
  \<open>data.owner\<close>: reading the property of \<open>null\<close> throws; an object gives its own property
  or \<open>undefined\<close> (\<open>None\<close>); strings, numbers, booleans and arrays have no such property.
\<close>

fun get_owner :: "json \<Rightarrow> error + json option" where
  "get_owner JNull = Inl Thrown"
| "get_owner (JObj kvs) = Inr (map_of kvs ''owner'')"
| "get_owner v = Inr None"

section \<open>The external collaborators\<close>

text \<open>
  The library functions the two classes call are parameters of the model:
  \<^item> \<open>SHA256\<close>: \<open>SHA256(s).toString()\<close> of crypto-js, the hexadecimal digest of a string;
  \<^item> \<open>encode\<close>: \<open>Buffer.from(JSON.stringify(data)).toString("hex")\<close>;
  \<^item> \<open>decode\<close>: \<open>JSON.parse(hex2ascii(body))\<close>, \<open>None\<close> when it throws;
  \<^item> \<open>verify\<close>: \<open>bitcoinMessage.verify(message, address, signature)\<close>, \<open>None\<close> when it
    throws (a malformed signature or address);
  \<^item> \<open>parseInt\<close>: the builtin on a string, \<open>None\<close> for \<open>NaN\<close>.
\<close>

record lib =
  SHA256 :: "string \<Rightarrow> string"
  encode :: "json \<Rightarrow> string"
  decode :: "string \<Rightarrow> json option"
  verify :: "string \<Rightarrow> string \<Rightarrow> string \<Rightarrow> bool option"
  parseInt :: "string \<Rightarrow> int option"

section \<open>Serialisation of a block\<close>

text \<open>
  JavaScript numbers that hold clock readings, heights and indices are integers;
  \<open>Number.prototype.toString\<close> gives their decimal digits, with a minus sign
  below zero.
\<close>

definition digit_char :: "nat \<Rightarrow> char" where
  "digit_char d = ''0123456789abcdef'' ! d"

function digits_of :: "int \<Rightarrow> string" where
  "digits_of n =
     (if n < 10 then [digit_char (nat n)]
      else digits_of (n div 10) @ [digit_char (nat (n mod 10))])"
  by pat_completeness auto
termination
  by (relation "measure nat") auto

declare digits_of.simps [simp del]

definition toString :: "int \<Rightarrow> string" where
  "toString n = (if n < 0 then CHR ''-'' # digits_of (- n) else digits_of n)"

text \<open>
  \<open>JSON.stringify\<close> of a string: the quotation mark and the reverse solidus are escaped,
  the control characters below U+0020 get their short escape or \<open>\u00xx\<close>, every other
  character stands for itself.
\<close>

definition json_escape :: "char \<Rightarrow> string" where
  "json_escape c =
     (if c = CHR 0x22 then [CHR 0x5C, CHR 0x22]
      else if c = CHR 0x5C then [CHR 0x5C, CHR 0x5C]
      else if c = CHR 0x08 then [CHR 0x5C, CHR ''b'']
      else if c = CHR 0x0C then [CHR 0x5C, CHR ''f'']
      else if c = CHR 0x0A then [CHR 0x5C, CHR ''n'']
      else if c = CHR 0x0D then [CHR 0x5C, CHR ''r'']
      else if c = CHR 0x09 then [CHR 0x5C, CHR ''t'']
      else if (of_char c :: nat) < 32
        then [CHR 0x5C, CHR ''u'', CHR ''0'', CHR ''0'',
              digit_char (of_char c div 16), digit_char (of_char c mod 16)]
      else [c])"

definition JSON_quote :: "string \<Rightarrow> string" where
  "JSON_quote s = CHR 0x22 # concat (map json_escape s) @ [CHR 0x22]"

text \<open>A field that holds \<open>null\<close> or a string (\<open>hash\<close>, \<open>previousBlockHash\<close>).\<close>

definition JSON_string_or_null :: "string option \<Rightarrow> string" where
  "JSON_string_or_null v = (case v of None \<Rightarrow> ''null'' | Some s \<Rightarrow> JSON_quote s)"

section \<open>Block (block.js)\<close>

record block =
  hash :: "string option"
  height :: nat
  body :: string
  time :: int
  previousBlockHash :: "string option"

text \<open>\<open>constructor(data)\<close>.\<close>

definition Block :: "lib \<Rightarrow> json \<Rightarrow> block" where
  "Block L data =
     \<lparr>hash = None, height = 0, body = encode L data, time = 0, previousBlockHash = None\<rparr>"

text \<open>
  \<open>JSON.stringify(block)\<close>: the own properties in the order the constructor created them.
\<close>

definition JSON_stringify :: "block \<Rightarrow> string" where
  "JSON_stringify b =
     ''{'' @ JSON_quote ''hash'' @ '':'' @ JSON_string_or_null (hash b) @
     '','' @ JSON_quote ''height'' @ '':'' @ toString (int (height b)) @
     '','' @ JSON_quote ''body'' @ '':'' @ JSON_quote (body b) @
     '','' @ JSON_quote ''time'' @ '':'' @ toString (time b) @
     '','' @ JSON_quote ''previousBlockHash'' @ '':'' @
       JSON_string_or_null (previousBlockHash b) @ ''}''"

text \<open>
  \<open>validate()\<close>: \<open>block.js\<close> declares it \<open>async\<close> with no \<open>await\<close> inside, the other
  copy of the class returns \<open>new Promise\<close>, whose executor runs at once. Either way the
  body runs to its end when the method is called, so the caller gets the promise
  together with the block whose \<open>hash\<close> field has been overwritten.
  \<open>currentBlockHash === newBlockHash\<close> compares the old field (\<open>null\<close> or a string) with
  the new digest.
\<close>

definition validate :: "lib \<Rightarrow> block \<Rightarrow> bool promise \<times> block" where
  "validate L self =
     (let currentBlockHash = hash self;
          currentBlockHashStringified = JSON_stringify self;
          newBlockHash = SHA256 L currentBlockHashStringified
      in (Fulfilled (currentBlockHash = Some newBlockHash), self\<lparr>hash := Some newBlockHash\<rparr>))"

text \<open>
  \<open>getBData()\<close>: the body is decoded first, so a body that does not decode rejects also
  for the block at height 0.
\<close>

definition genesis_marker :: json where
  "genesis_marker = JStr ''** Genesis Block **''"

definition getBData :: "lib \<Rightarrow> block \<Rightarrow> json promise" where
  "getBData L self =
     (case decode L (body self) of
        None \<Rightarrow> Rejected (ErrorOf Thrown)
      | Some decodedData \<Rightarrow>
          if height self = 0 then Fulfilled genesis_marker else Fulfilled decodedData)"

section \<open>Blockchain (blockchain.js)\<close>

text \<open>
  \<open>this.chain\<close> and \<open>this.height\<close> (the field \<open>chainHeight\<close>, as \<open>height\<close> is the
  block's). An \<open>async\<close> method runs, when it is called, up to its first \<open>await\<close>; what
  follows the \<open>await\<close> is a continuation on the microtask queue, run later, in queue
  order. \<open>_addBlock\<close> is the one method that reads the chain before an \<open>await\<close> and
  writes it after, so its continuation is modelled as a job of its own; a function
  returns its result and the state it leaves.
\<close>

record blockchain =
  chain :: "block list"
  chainHeight :: int

subsection \<open>validateChain\<close>

definition null_or :: "string option \<Rightarrow> string" where
  "null_or v = (case v of None \<Rightarrow> ''null'' | Some s \<Rightarrow> s)"

definition hashMismatchError :: "nat \<Rightarrow> block \<Rightarrow> block \<Rightarrow> string" where
  "hashMismatchError index b previousBlock =
     ''Block '' @ toString (int index) @ '' Hash Mismatch :: PreviousBlockHash '' @
     null_or (previousBlockHash b) @ '', Required PreviousBlockHash '' @
     null_or (hash previousBlock)"

definition blockInvalidError :: "nat \<Rightarrow> block \<Rightarrow> string" where
  "blockInvalidError index b =
     ''Block '' @ toString (int index) @ '' Invalid :: Hash ('' @ null_or (hash b) @ '')''"

text \<open>
  The \<open>forEach\<close> of \<open>validateChain\<close>, over the indices still to visit, the blocks as they
  stand and the log so far. \<open>self.chain[index - 1]\<close> is \<open>undefined\<close> at index 0, where
  reading \<open>.hash\<close> throws. \<open>block.validate()\<close> is called for its promise, which \<open>!\<close>
  negates; the call still overwrites the block's hash, and the block stored at
  \<open>index\<close> is the overwritten one from then on.
\<close>

fun validateChain_forEach ::
  "lib \<Rightarrow> nat list \<Rightarrow> block list \<Rightarrow> string list \<Rightarrow> block list \<times> (error + string list)"
where
  "validateChain_forEach L [] blocks errorLog = (blocks, Inr errorLog)"
| "validateChain_forEach L (index # rest) blocks errorLog =
     (let b = blocks ! index in
      if height b > 0 then
        (if index = 0 then (blocks, Inl Thrown)
         else
           (let previousBlock = blocks ! (index - 1);
                errorLog1 =
                  (if previousBlockHash b \<noteq> hash previousBlock
                   then errorLog @ [hashMismatchError index b previousBlock]
                   else errorLog);
                (p, b') = validate L b;
                errorLog2 =
                  (if \<not> ToBoolean_promise p
                   then errorLog1 @ [blockInvalidError index b']
                   else errorLog1)
            in validateChain_forEach L rest (blocks[index := b']) errorLog2))
      else validateChain_forEach L rest blocks errorLog)"

definition validateChain :: "lib \<Rightarrow> blockchain \<Rightarrow> string list promise \<times> blockchain" where
  "validateChain L self =
     (case validateChain_forEach L [0..<length (chain self)] (chain self) [] of
        (blocks, Inr errorLog) \<Rightarrow> (Fulfilled errorLog, self\<lparr>chain := blocks\<rparr>)
      | (blocks, Inl err) \<Rightarrow>
          (Rejected (Error ''Could not validate chain.''), self\<lparr>chain := blocks\<rparr>))"

subsection \<open>_addBlock\<close>

text \<open>
  Lines 65 to 67: the fields the admission routine writes into the block it was given
  (\<open>now\<close> is the reading of \<open>Date.now()\<close>). No other field of the block is written.
\<close>

definition addBlock_fill :: "lib \<Rightarrow> int \<Rightarrow> blockchain \<Rightarrow> block \<Rightarrow> block" where
  "addBlock_fill L now self b =
     (let b1 = b\<lparr>height := length (chain self)\<rparr>;
          b2 = b1\<lparr>time := now\<rparr>
      in b2\<lparr>hash := Some (SHA256 L (JSON_stringify b2))\<rparr>)"

text \<open>
  What \<open>_addBlock\<close> holds while it is suspended at \<open>await self.validateChain()\<close> (line 69):
  the settled promise of the traversal, which has already run, and the block.
\<close>

datatype continuation =
    AddBlock_resume "string list promise" block

text \<open>
  The call of \<open>_addBlock(block)\<close>, up to the \<open>await\<close>, for a block that is not yet in the
  chain (both callers pass a block they have just constructed): the continuation it
  leaves on the queue, the block object as the call leaves it, and the chain.
\<close>

definition addBlock_begin ::
  "lib \<Rightarrow> int \<Rightarrow> block \<Rightarrow> blockchain \<Rightarrow> continuation \<times> block \<times> blockchain"
where
  "addBlock_begin L now b self =
     (let b' = addBlock_fill L now self b;
          (errors, self') = validateChain L self
      in (AddBlock_resume errors b', b', self'))"

text \<open>
  The rest of \<open>_addBlock\<close>, run from the queue on the chain as it then stands: the
  promise of the method (\<open>Fulfilled None\<close> when it ends without a \<open>return\<close>) and the chain.
\<close>

fun addBlock_resume :: "continuation \<Rightarrow> blockchain \<Rightarrow> block option promise \<times> blockchain" where
  "addBlock_resume (AddBlock_resume (Rejected err) b') self = (Rejected (ErrorOf err), self)"
| "addBlock_resume (AddBlock_resume (Fulfilled errors) b') self =
     (if length errors = 0
      then (Fulfilled (Some b'),
            self\<lparr>chain := chain self @ [b'], chainHeight := chainHeight self + 1\<rparr>)
      else (Fulfilled None, self))"

text \<open>
  \<open>await self._addBlock(block)\<close> with nothing else in flight: the call, then its
  continuation.
\<close>

definition addBlock ::
  "lib \<Rightarrow> int \<Rightarrow> block \<Rightarrow> blockchain \<Rightarrow> block option promise \<times> block \<times> blockchain"
where
  "addBlock L now b self =
     (let (k, b', self') = addBlock_begin L now b self;
          (p, self'') = addBlock_resume k self'
      in (p, b', self''))"

subsection \<open>initializeChain\<close>

definition genesis_data :: json where
  "genesis_data = JObj [(''data'', JStr ''Genesis Block'')]"

text \<open>The call up to the \<open>await\<close> of line 38: the continuations it leaves, and the chain.\<close>

definition initializeChain_begin ::
  "lib \<Rightarrow> int \<Rightarrow> blockchain \<Rightarrow> continuation list \<times> blockchain"
where
  "initializeChain_begin L now self =
     (if chainHeight self = - 1
      then (let (k, b', self') = addBlock_begin L now (Block L genesis_data) self
            in ([k], self'))
      else ([], self))"

text \<open>\<open>await initializeChain()\<close> with nothing else in flight.\<close>

definition initializeChain :: "lib \<Rightarrow> int \<Rightarrow> blockchain \<Rightarrow> blockchain" where
  "initializeChain L now self =
     (if chainHeight self = - 1
      then snd (snd (addBlock L now (Block L genesis_data) self))
      else self)"

subsection \<open>submitStar\<close>

text \<open>\<open>message.split(":")\<close>: always at least one field.\<close>

fun split_colon :: "string \<Rightarrow> string list" where
  "split_colon [] = [[]]"
| "split_colon (c # cs) =
     (if c = CHR '':'' then [] # split_colon cs
      else (case split_colon cs of
              [] \<Rightarrow> [[c]]
            | f # fs \<Rightarrow> (c # f) # fs))"

text \<open>
  \<open>parseInt(message.split(":")[1])\<close>: with fewer than two fields the index gives
  \<open>undefined\<close>, which \<open>parseInt\<close> turns into \<open>NaN\<close>.
\<close>

definition passedTime :: "lib \<Rightarrow> string \<Rightarrow> int option" where
  "passedTime L message =
     (case split_colon message of
        f0 # f1 # fs \<Rightarrow> parseInt L f1
      | _ \<Rightarrow> None)"

text \<open>
  \<open>parseInt(new Date().getTime().toString().slice(0, -3))\<close>, \<open>now\<close> being the reading of
  the clock in milliseconds.
\<close>

definition slice_0_minus3 :: "string \<Rightarrow> string" where
  "slice_0_minus3 s = take (length s - 3) s"

definition currentTime :: "lib \<Rightarrow> int \<Rightarrow> int option" where
  "currentTime L now = parseInt L (slice_0_minus3 (toString now))"

text \<open>
  \<open>currentTime - passedTime < fiveMinutesInSeconds\<close>: false as soon as one side is
  \<open>NaN\<close>.
\<close>

definition fiveMinutesInSeconds :: int where
  "fiveMinutesInSeconds = 5 * 60"

definition within_window :: "int option \<Rightarrow> int option \<Rightarrow> bool" where
  "within_window cur passed =
     (case (cur, passed) of
        (Some c, Some p) \<Rightarrow> c - p < fiveMinutesInSeconds
      | _ \<Rightarrow> False)"

text \<open>
  The body of the \<open>try\<close> block, for a message that is a string. \<open>self._addBlock(block)\<close>
  is called and its promise dropped: the call writes the block's fields, leaves its
  continuation on the queue, and whatever its promise is settled with never reaches
  \<open>submitStar\<close>, which returns the block object. The address and the signature are
  only handed to \<open>bitcoinMessage.verify\<close> and to the constructor, both inside the \<open>try\<close>.
\<close>

definition submitStar_try ::
  "lib \<Rightarrow> int \<Rightarrow> int \<Rightarrow> blockchain \<Rightarrow> string \<Rightarrow> string \<Rightarrow> string \<Rightarrow> json
     \<Rightarrow> (error + block) \<times> continuation list \<times> blockchain"
where
  "submitStar_try L now now_add self address message signature star =
     (if within_window (currentTime L now) (passedTime L message) then
        (case verify L message address signature of
           None \<Rightarrow> (Inl Thrown, [], self)
         | Some True \<Rightarrow>
             (let b = Block L (JObj [(''owner'', JStr address), (''star'', star)]);
                  (k, b', self') = addBlock_begin L now_add b self
              in (Inr b', [k], self'))
         | Some False \<Rightarrow> (Inl (Error ''Message could not be verified.''), [], self))
      else
        (Inl (Error
          ''Time between current time and passed time needs to be less than 5 minutes.''),
         [], self))"

definition submission_failed :: error where
  "submission_failed = Error ''There was an issue submitting your star.''"

text \<open>
  The call of \<open>submitStar\<close>; it has no \<open>await\<close>, so its promise is settled when the call
  returns. The message is any value of the request: line 118 calls \<open>message.split\<close>
  before the \<open>try\<close> of line 122, and on a value that is not a string (\<open>null\<close>, a number,
  a boolean, an array, an object of parsed JSON) that call throws, so the method is
  rejected with the exception itself.
\<close>

definition submitStar_begin ::
  "lib \<Rightarrow> int \<Rightarrow> int \<Rightarrow> blockchain \<Rightarrow> string \<Rightarrow> json \<Rightarrow> string \<Rightarrow> json
     \<Rightarrow> block promise \<times> continuation list \<times> blockchain"
where
  "submitStar_begin L now now_add self address message signature star =
     (case message of
        JStr m \<Rightarrow>
          (case submitStar_try L now now_add self address m signature star of
             (Inr b, ks, self') \<Rightarrow> (Fulfilled b, ks, self')
           | (Inl err, ks, self') \<Rightarrow> (Rejected submission_failed, ks, self'))
      | _ \<Rightarrow> (Rejected Thrown, [], self))"

text \<open>
  \<open>await submitStar(...)\<close> with nothing else in flight: the call, then the continuation
  of \<open>_addBlock\<close> if the call left one.
\<close>

definition submitStar ::
  "lib \<Rightarrow> int \<Rightarrow> int \<Rightarrow> blockchain \<Rightarrow> string \<Rightarrow> json \<Rightarrow> string \<Rightarrow> json
     \<Rightarrow> block promise \<times> blockchain"
where
  "submitStar L now now_add self address message signature star =
     (case submitStar_begin L now now_add self address message signature star of
        (p, ks, self') \<Rightarrow> (p, fold (\<lambda>k s. snd (addBlock_resume k s)) ks self'))"

subsection \<open>getBlockByHeight\<close>

text \<open>
  \<open>filter(...)[0]\<close> is \<open>undefined\<close> on an empty result, which \<open>block ? block : null\<close> turns
  into \<open>null\<close> (\<open>None\<close>); a block object is truthy.
\<close>

definition getBlockByHeight :: "blockchain \<Rightarrow> int \<Rightarrow> block option promise" where
  "getBlockByHeight self h =
     (case filter (\<lambda>p. int (height p) = h) (chain self) of
        [] \<Rightarrow> Fulfilled None
      | b # bs \<Rightarrow> Fulfilled (Some b))"

subsection \<open>getStarsByWalletAddress\<close>

text \<open>
  The callback given to \<open>forEach\<close> is \<open>async\<close>: for each block it calls \<open>getBData()\<close> and
  is suspended at the \<open>await\<close>, so \<open>forEach\<close> leaves one pending promise per block, in
  chain order, and \<open>stars\<close> is still empty at \<open>return stars\<close>. The continuations are on
  the microtask queue ahead of the caller's own continuation and run in that order;
  each one that resumes with a value makes the test and pushes onto the same array. A
  continuation resumed with a rejection, or one that throws, ends its callback without
  a push.
\<close>

definition stars_resume :: "string \<Rightarrow> json promise \<Rightarrow> json list \<Rightarrow> json list" where
  "stars_resume address p stars =
     (case p of
        Rejected err \<Rightarrow> stars
      | Fulfilled data \<Rightarrow>
          if ToBoolean data then
            (case get_owner data of
               Inl err \<Rightarrow> stars
             | Inr v \<Rightarrow> if v = Some (JStr address) then stars @ [data] else stars)
          else stars)"

definition getStarsByWalletAddress :: "lib \<Rightarrow> blockchain \<Rightarrow> string \<Rightarrow> json list promise" where
  "getStarsByWalletAddress L self address =
     (let pending = map (getBData L) (chain self);
          stars = []
      in Fulfilled (fold (stars_resume address) pending stars))"

section \<open>Runs of the public operations\<close>

text \<open>
  The object together with the continuations of \<open>_addBlock\<close> waiting on the microtask
  queue, oldest first.
\<close>

record event_loop =
  object :: blockchain
  microtasks :: "continuation list"

text \<open>
  What the program can do to the chain without tampering: call \<open>submitStar\<close>, admit a
  freshly constructed block, call \<open>validateChain\<close> or \<open>initializeChain\<close>, with any
  arguments and clock readings, and let the oldest waiting continuation run
  (\<open>Resume\<close>, which does nothing on an empty queue). A call made while continuations
  wait is a call made in the same tick, or without awaiting the earlier ones. The
  queries do not write to the chain.
\<close>

datatype call =
    SubmitStar int int string json string json
  | AddBlock int json
  | ValidateChain
  | InitializeChain int
  | Resume

fun step :: "lib \<Rightarrow> call \<Rightarrow> event_loop \<Rightarrow> event_loop" where
  "step L (SubmitStar now now_add address message signature star) w =
     (case submitStar_begin L now now_add (object w) address message signature star of
        (p, ks, self') \<Rightarrow> \<lparr>object = self', microtasks = microtasks w @ ks\<rparr>)"
| "step L (AddBlock now data) w =
     (case addBlock_begin L now (Block L data) (object w) of
        (k, b', self') \<Rightarrow> \<lparr>object = self', microtasks = microtasks w @ [k]\<rparr>)"
| "step L ValidateChain w =
     \<lparr>object = snd (validateChain L (object w)), microtasks = microtasks w\<rparr>"
| "step L (InitializeChain now) w =
     (case initializeChain_begin L now (object w) of
        (ks, self') \<Rightarrow> \<lparr>object = self', microtasks = microtasks w @ ks\<rparr>)"
| "step L Resume w =
     (case microtasks w of
        [] \<Rightarrow> w
      | k # ks \<Rightarrow> \<lparr>object = snd (addBlock_resume k (object w)), microtasks = ks\<rparr>)"

text \<open>
  \<open>new Blockchain()\<close>: the constructor sets the two fields and calls \<open>initializeChain()\<close>
  without awaiting it, so it returns with an empty chain, height -1 and the
  continuation of the genesis admission waiting.
\<close>

definition Blockchain :: "lib \<Rightarrow> int \<Rightarrow> event_loop" where
  "Blockchain L now =
     step L (InitializeChain now) \<lparr>object = \<lparr>chain = [], chainHeight = - 1\<rparr>, microtasks = []\<rparr>"

definition run :: "lib \<Rightarrow> int \<Rightarrow> call list \<Rightarrow> event_loop" where
  "run L now calls = fold (step L) calls (Blockchain L now)"

text \<open>
  The runs in which nothing overlaps: the genesis admission completes first, and every
  call is followed by its continuation before the next call is made, as when the
  caller awaits the constructor's admission and each of its calls.
\<close>

definition awaited :: "call list \<Rightarrow> call list" where
  "awaited calls = Resume # concat (map (\<lambda>c. [c, Resume]) calls)"

text \<open>A call together with its continuation, on the object alone.\<close>

fun call_awaited :: "lib \<Rightarrow> call \<Rightarrow> blockchain \<Rightarrow> blockchain" where
  "call_awaited L (SubmitStar now now_add address message signature star) self =
     snd (submitStar L now now_add self address message signature star)"
| "call_awaited L (AddBlock now data) self = snd (snd (addBlock L now (Block L data) self))"
| "call_awaited L ValidateChain self = snd (validateChain L self)"
| "call_awaited L (InitializeChain now) self = initializeChain L now self"
| "call_awaited L Resume self = self"

section \<open>Auxiliary notions for the properties\<close>

text \<open>
  What every run without overlap preserves: the chain is the genesis block alone or
  the genesis block and one more block; the genesis block has a hash; no block has a
  previous hash.
\<close>

definition chain_inv :: "blockchain \<Rightarrow> bool" where
  "chain_inv c \<longleftrightarrow>
     (\<exists>g. chain c = [g] \<and> height g = 0 \<and> hash g \<noteq> None \<and> previousBlockHash g = None
          \<and> chainHeight c = 0) \<or>
     (\<exists>g b. chain c = [g, b] \<and> height g = 0 \<and> hash g \<noteq> None \<and> previousBlockHash g = None
          \<and> height b = 1 \<and> previousBlockHash b = None \<and> chainHeight c = 1)"

text \<open>
  What every run preserves, overlapping or not: a block's height is at most its index
  in the chain, and a block that waits for its push has a height of at most the chain
  length.
\<close>

fun block_of :: "continuation \<Rightarrow> block" where
  "block_of (AddBlock_resume r b) = b"

definition heights_bounded :: "event_loop \<Rightarrow> bool" where
  "heights_bounded w \<longleftrightarrow>
     (\<forall>i < length (chain (object w)). height (chain (object w) ! i) \<le> i) \<and>
     (\<forall>k \<in> set (microtasks w). height (block_of k) \<le> length (chain (object w)))"

text \<open>A block without its cached hash, the one field \<open>validate()\<close> rewrites.\<close>

definition forget_hash :: "block \<Rightarrow> block" where
  "forget_hash b = b\<lparr>hash := None\<rparr>"

text \<open>
  A chain of two blocks after a traversal: the hash of the second block replaced by
  the digest of that block's serialisation, nothing else changed.
\<close>

definition rehash_second :: "lib \<Rightarrow> blockchain \<Rightarrow> blockchain" where
  "rehash_second L c =
     c\<lparr>chain := [chain c ! 0,
                  (chain c ! 1)\<lparr>hash := Some (SHA256 L (JSON_stringify (chain c ! 1)))\<rparr>]\<rparr>"

text \<open>The digest does not send these two texts to the same value, unless they are equal.\<close>

definition no_collision :: "lib \<Rightarrow> string \<Rightarrow> string \<Rightarrow> bool" where
  "no_collision L x y \<longleftrightarrow> (SHA256 L x = SHA256 L y \<longrightarrow> x = y)"



text \<open>Overwriting the \<open>body\<close> of the block stored at an index, from outside the class.\<close>

definition tamper_body :: "nat \<Rightarrow> string \<Rightarrow> blockchain \<Rightarrow> blockchain" where
  "tamper_body i s c = c\<lparr>chain := (chain c)[i := (chain c ! i)\<lparr>body := s\<rparr>]\<rparr>"

subsection \<open>A concrete environment for the examples\<close>

text \<open>
  The examples run the model in an environment with a three-entry codec, a digest that
  is the identity (so it has no collision), a signature check that accepts
  \<open>signed:\<close> followed by the message and throws on \<open>malformed\<close>, and a \<open>parseInt\<close> that
  reads a string of decimal digits.
\<close>

definition demo_codec :: "(string \<times> json) list" where
  "demo_codec =
     [(''67'', JObj [(''data'', JStr ''Genesis Block'')]),
      (''a1'', JObj [(''owner'', JStr ''addr1''), (''star'', JStr ''Vega'')]),
      (''b2'', JObj [(''owner'', JStr ''addr2''), (''star'', JStr ''Sirius'')])]"

definition demo_parseInt :: "string \<Rightarrow> int option" where
  "demo_parseInt s =
     (if s \<noteq> [] \<and> list_all (\<lambda>c. (48::nat) \<le> of_char c \<and> of_char c \<le> (57::nat)) s
      then Some (foldl (\<lambda>a c. 10 * a + (of_char c - 48)) 0 s)
      else None)"

definition demo :: lib where
  "demo =
     \<lparr>SHA256 = (\<lambda>s. s),
      encode = (\<lambda>d. case find (\<lambda>(t, v). v = d) demo_codec of
                       Some (t, v) \<Rightarrow> t
                     | None \<Rightarrow> []),
      decode = map_of demo_codec,
      verify = (\<lambda>m a s. if s = ''malformed'' then None else Some (s = ''signed:'' @ m)),
      parseInt = demo_parseInt\<rparr>"

definition demo_t0 :: int where
  "demo_t0 = 1700000000123"

definition demo_message :: string where
  "demo_message = ''addr1:1700000000:starRegistry''"

definition demo_signature :: string where
  "demo_signature = ''signed:addr1:1700000000:starRegistry''"

text \<open>A submission 100 seconds after the message was issued, with a valid signature.\<close>

definition demo_submit :: call where
  "demo_submit =
     SubmitStar 1700000100123 1700000100124 ''addr1'' (JStr demo_message) demo_signature
       (JStr ''Vega'')"

text \<open>The chain once the genesis admission of the constructor has completed.\<close>

definition demo_genesis :: blockchain where
  "demo_genesis = object (run demo demo_t0 [Resume])"

text \<open>The chain after that submission, awaited, on a chain whose genesis has completed.\<close>

definition demo_chain :: blockchain where
  "demo_chain = object (run demo demo_t0 (awaited [demo_submit]))"

text \<open>
  A submission made right after the constructor, in the same tick and at the same
  clock reading, then awaited; and the submission above, awaited, after it.
\<close>

definition demo_submit_at_once :: call where
  "demo_submit_at_once =
     SubmitStar 1700000000123 1700000000123 ''addr1'' (JStr demo_message) demo_signature
       (JStr ''Vega'')"

definition demo_overlap :: event_loop where
  "demo_overlap = run demo demo_t0 [demo_submit_at_once, Resume, Resume, demo_submit, Resume]"

definition demo_tampered :: blockchain where
  "demo_tampered = tamper_body 1 ''b2'' demo_chain"

text \<open>
  A chain written by hand, as the star lookup accepts any: the genesis block, three
  blocks of \<open>addr1\<close> and two of \<open>addr2\<close>.
\<close>

definition demo_star_block :: "nat \<Rightarrow> string \<Rightarrow> block" where
  "demo_star_block h token =
     \<lparr>hash = Some ''00'', height = h, body = token, time = 1700000100124,
      previousBlockHash = None\<rparr>"

definition demo_five_stars :: blockchain where
  "demo_five_stars =
     \<lparr>chain = [demo_star_block 0 ''67'', demo_star_block 1 ''a1'', demo_star_block 2 ''b2'',
               demo_star_block 3 ''a1'', demo_star_block 4 ''b2'', demo_star_block 5 ''a1''],
      chainHeight = 5\<rparr>"

section \<open>Basic facts about the operations\<close>

lemma validate_fields:
  "height (snd (validate L b)) = height b"
  "body (snd (validate L b)) = body b"
  "time (snd (validate L b)) = time b"
  "previousBlockHash (snd (validate L b)) = previousBlockHash b"
  "hash (snd (validate L b)) = Some (SHA256 L (JSON_stringify b))"
  by (simp_all add: validate_def Let_def)

lemma validate_overwrites:
  "snd (validate L b) = b\<lparr>hash := Some (SHA256 L (JSON_stringify b))\<rparr>"
  by (simp add: validate_def Let_def)

lemma forget_hash_validate: "forget_hash (snd (validate L b)) = forget_hash b"
  by (simp add: forget_hash_def validate_def Let_def)

lemma height_forget_hash: "height (forget_hash b) = height b"
  by (simp add: forget_hash_def)

lemma Block_fields:
  "hash (Block L d) = None"
  "height (Block L d) = 0"
  "body (Block L d) = encode L d"
  "time (Block L d) = 0"
  "previousBlockHash (Block L d) = None"
  by (simp_all add: Block_def)

lemma addBlock_fill_fields:
  "height (addBlock_fill L now c b) = length (chain c)"
  "body (addBlock_fill L now c b) = body b"
  "time (addBlock_fill L now c b) = now"
  "previousBlockHash (addBlock_fill L now c b) = previousBlockHash b"
  "hash (addBlock_fill L now c b) =
     Some (SHA256 L (JSON_stringify (b\<lparr>height := length (chain c), time := now\<rparr>)))"
  by (simp_all add: addBlock_fill_def Let_def)

text \<open>The awaited admission, written out.\<close>

lemma addBlock_eq:
  "addBlock L now b self =
     (let b' = addBlock_fill L now self b in
      case validateChain L self of
        (Rejected err, self') \<Rightarrow> (Rejected (ErrorOf err), b', self')
      | (Fulfilled errors, self') \<Rightarrow>
          if length errors = 0
          then (Fulfilled (Some b'), b',
                self'\<lparr>chain := chain self' @ [b'], chainHeight := chainHeight self' + 1\<rparr>)
          else (Fulfilled None, b', self'))"
  by (simp add: addBlock_def addBlock_begin_def Let_def split: prod.splits promise.splits)

lemma addBlock_begin_parts:
  "fst (snd (addBlock_begin L now b self)) = addBlock_fill L now self b"
  "snd (snd (addBlock_begin L now b self)) = snd (validateChain L self)"
  "block_of (fst (addBlock_begin L now b self)) = addBlock_fill L now self b"
  by (simp_all add: addBlock_begin_def Let_def split: prod.splits)

text \<open>The block object leaves \<open>_addBlock\<close> with the previous hash it came with.\<close>

lemma addBlock_keeps_previousBlockHash:
  "previousBlockHash (fst (snd (addBlock L now b c))) = previousBlockHash b"
  by (simp add: addBlock_eq Let_def addBlock_fill_fields split: prod.splits promise.splits)

text \<open>The serialisation tells a \<open>null\<close> hash from a string hash at its eighth character.\<close>

lemma JSON_stringify_hash_differs:
  "JSON_stringify (b\<lparr>hash := None\<rparr>) \<noteq> JSON_stringify (b\<lparr>hash := Some h\<rparr>)"
  by (simp add: JSON_stringify_def JSON_string_or_null_def JSON_quote_def)

subsection \<open>validateChain\<close>

lemma validateChain_Nil:
  "chain c = [] \<Longrightarrow> validateChain L c = (Fulfilled [], c)"
  by (cases c) (simp add: validateChain_def)

lemma validateChain_single:
  "chain c = [g] \<Longrightarrow> height g = 0 \<Longrightarrow> validateChain L c = (Fulfilled [], c)"
  by (cases c) (simp add: validateChain_def)

lemma validateChain_pair:
  "chain c = [g, b] \<Longrightarrow> height g = 0 \<Longrightarrow> 0 < height b \<Longrightarrow>
   validateChain L c =
     (Fulfilled (if previousBlockHash b \<noteq> hash g then [hashMismatchError 1 b g] else []),
      c\<lparr>chain := [g, snd (validate L b)]\<rparr>)"
  by (cases c) (simp add: validateChain_def ToBoolean_promise_def Let_def split: prod.splits)

text \<open>
  Whatever the chain, the traversal adds linkage errors only: the test on the promise
  of \<open>validate()\<close> never succeeds.
\<close>

lemma validateChain_forEach_log:
  "validateChain_forEach L idxs blocks errorLog = (blocks', Inr errorLog') \<Longrightarrow>
   \<exists>ms. errorLog' = errorLog @ ms \<and> (\<forall>m \<in> set ms. \<exists>i b p. m = hashMismatchError i b p)"
proof (induction idxs arbitrary: blocks errorLog)
  case Nil
  then show ?case by simp
next
  case (Cons index rest)
  show ?case
  proof (cases "0 < height (blocks ! index)")
    case False
    with Cons.prems have "validateChain_forEach L rest blocks errorLog = (blocks', Inr errorLog')"
      by simp
    then show ?thesis by (rule Cons.IH)
  next
    case True
    with Cons.prems have pos: "index \<noteq> 0"
      by (cases "index = 0") simp_all
    define b where "b = blocks ! index"
    define e1 where "e1 =
      (if previousBlockHash b \<noteq> hash (blocks ! (index - 1))
       then [hashMismatchError index b (blocks ! (index - 1))] else [])"
    from Cons.prems True pos
    have "validateChain_forEach L rest (blocks[index := snd (validate L b)]) (errorLog @ e1)
            = (blocks', Inr errorLog')"
      by (simp add: Let_def ToBoolean_promise_def b_def e1_def split: prod.splits if_splits)
    from Cons.IH [OF this] obtain ms where ms: "errorLog' = (errorLog @ e1) @ ms"
      "\<forall>m \<in> set ms. \<exists>i b p. m = hashMismatchError i b p"
      by blast
    have "\<forall>m \<in> set (e1 @ ms). \<exists>i b p. m = hashMismatchError i b p"
      using ms(2) by (auto simp: e1_def)
    with ms(1) show ?thesis by (metis append.assoc)
  qed
qed

lemma validateChain_log_only_mismatch:
  assumes "fst (validateChain L c) = Fulfilled errorLog" and "m \<in> set errorLog"
  shows "\<exists>i b p. m = hashMismatchError i b p"
proof -
  obtain blocks r where r: "validateChain_forEach L [0..<length (chain c)] (chain c) [] = (blocks, r)"
    by (cases "validateChain_forEach L [0..<length (chain c)] (chain c) []")
  with assms(1) have "r = Inr errorLog"
    by (cases r) (simp_all add: validateChain_def)
  with r validateChain_forEach_log [of L "[0..<length (chain c)]" "chain c" "[]" blocks errorLog]
  show ?thesis using assms(2) by auto
qed

text \<open>The traversal changes no field of a stored block but the cached hash.\<close>

lemma map_update_same: "(map f xs)[i := f (xs ! i)] = map f xs"
  by (metis list_update_id map_update)

lemma validateChain_forEach_blocks:
  "validateChain_forEach L idxs blocks errorLog = (blocks', r) \<Longrightarrow>
   map forget_hash blocks' = map forget_hash blocks"
proof (induction idxs arbitrary: blocks errorLog)
  case Nil
  then show ?case by simp
next
  case (Cons index rest)
  show ?case
  proof (cases "0 < height (blocks ! index)")
    case False
    with Cons.prems have "validateChain_forEach L rest blocks errorLog = (blocks', r)"
      by simp
    then show ?thesis by (rule Cons.IH)
  next
    case True
    show ?thesis
    proof (cases "index = 0")
      case True
      with \<open>0 < height (blocks ! index)\<close> Cons.prems show ?thesis by simp
    next
      case False
      with True Cons.prems obtain errorLog2 where
        "validateChain_forEach L rest (blocks[index := snd (validate L (blocks ! index))]) errorLog2
           = (blocks', r)"
        by (simp add: Let_def ToBoolean_promise_def split: prod.splits)
      from Cons.IH [OF this]
      have "map forget_hash blocks' =
            map forget_hash (blocks[index := snd (validate L (blocks ! index))])" .
      also have "\<dots> = map forget_hash blocks"
        by (simp add: map_update forget_hash_validate map_update_same)
      finally show ?thesis .
    qed
  qed
qed

lemma validateChain_forget:
  "map forget_hash (chain (snd (validateChain L c))) = map forget_hash (chain c)"
  "chainHeight (snd (validateChain L c)) = chainHeight c"
proof -
  obtain blocks r where r: "validateChain_forEach L [0..<length (chain c)] (chain c) [] = (blocks, r)"
    by (cases "validateChain_forEach L [0..<length (chain c)] (chain c) []")
  have c: "chain (snd (validateChain L c)) = blocks"
    using r by (cases r) (simp_all add: validateChain_def)
  show "map forget_hash (chain (snd (validateChain L c))) = map forget_hash (chain c)"
    using validateChain_forEach_blocks [OF r] c by simp
  show "chainHeight (snd (validateChain L c)) = chainHeight c"
    using r by (cases r) (simp_all add: validateChain_def)
qed

lemma validateChain_length:
  "length (chain (snd (validateChain L c))) = length (chain c)"
  using validateChain_forget(1) [of L c] by (metis length_map)

lemma validateChain_height:
  assumes "i < length (chain c)"
  shows "height (chain (snd (validateChain L c)) ! i) = height (chain c ! i)"
proof -
  have "map forget_hash (chain (snd (validateChain L c))) ! i = map forget_hash (chain c) ! i"
    by (simp add: validateChain_forget)
  then have "forget_hash (chain (snd (validateChain L c)) ! i) = forget_hash (chain c ! i)"
    using assms by (simp add: validateChain_length)
  then show ?thesis by (metis height_forget_hash)
qed

text \<open>The traversal throws at index 0 only, and only if the first block is above height 0.\<close>

lemma validateChain_forEach_no_throw:
  "0 \<notin> set idxs \<Longrightarrow> \<exists>errorLog'. snd (validateChain_forEach L idxs blocks errorLog) = Inr errorLog'"
proof (induction idxs arbitrary: blocks errorLog)
  case Nil
  then show ?case by simp
next
  case (Cons index rest)
  then have "index \<noteq> 0" and "0 \<notin> set rest" by auto
  with Cons.IH show ?case
    by (simp add: Let_def split: prod.splits)
qed

lemma validateChain_fulfilled:
  assumes "chain c = [] \<or> height (chain c ! 0) = 0"
  shows "\<exists>errorLog. fst (validateChain L c) = Fulfilled errorLog"
proof (cases "chain c")
  case Nil
  then show ?thesis by (simp add: validateChain_Nil)
next
  case (Cons g bs)
  with assms have g: "height (chain c ! 0) = 0" by simp
  have "0 < length (chain c)"
    using Cons by simp
  then have u: "[0..<length (chain c)] = 0 # [Suc 0..<length (chain c)]"
    by (rule upt_conv_Cons)
  have "0 \<notin> set [Suc 0..<length (chain c)]" by simp
  from validateChain_forEach_no_throw [OF this, of L "chain c" "[]"]
  obtain errorLog where "snd (validateChain_forEach L [Suc 0..<length (chain c)] (chain c) []) = Inr errorLog"
    by blast
  then have "snd (validateChain_forEach L [0..<length (chain c)] (chain c) []) = Inr errorLog"
    using g by (simp add: u)
  then show ?thesis
    by (cases "validateChain_forEach L [0..<length (chain c)] (chain c) []")
       (simp add: validateChain_def)
qed

subsection \<open>The steps, by the parts of what a call returns\<close>

lemma step_SubmitStar:
  "step L (SubmitStar now now_add address message signature star) w =
     \<lparr>object = snd (snd (submitStar_begin L now now_add (object w) address message signature star)),
      microtasks = microtasks w @
        fst (snd (submitStar_begin L now now_add (object w) address message signature star))\<rparr>"
  by (simp split: prod.splits)

lemma step_AddBlock:
  "step L (AddBlock now data) w =
     \<lparr>object = snd (snd (addBlock_begin L now (Block L data) (object w))),
      microtasks = microtasks w @ [fst (addBlock_begin L now (Block L data) (object w))]\<rparr>"
  by (simp split: prod.splits)

lemma step_InitializeChain:
  "step L (InitializeChain now) w =
     (if chainHeight (object w) = - 1 then step L (AddBlock now genesis_data) w else w)"
  by (simp add: initializeChain_begin_def split: prod.splits)

lemma step_Resume_Nil: "microtasks w = [] \<Longrightarrow> step L Resume w = w"
  by simp

lemma step_Resume_Cons:
  "microtasks w = k # ks \<Longrightarrow>
   step L Resume w = \<lparr>object = snd (addBlock_resume k (object w)), microtasks = ks\<rparr>"
  by simp

lemma addBlock_parts:
  "addBlock L now b c =
     (fst (addBlock_resume (fst (addBlock_begin L now b c)) (snd (snd (addBlock_begin L now b c)))),
      fst (snd (addBlock_begin L now b c)),
      snd (addBlock_resume (fst (addBlock_begin L now b c)) (snd (snd (addBlock_begin L now b c)))))"
  by (simp add: addBlock_def Let_def split: prod.splits)

lemma submitStar_parts:
  "submitStar L now now_add c address message signature star =
     (fst (submitStar_begin L now now_add c address message signature star),
      fold (\<lambda>k s. snd (addBlock_resume k s))
        (fst (snd (submitStar_begin L now now_add c address message signature star)))
        (snd (snd (submitStar_begin L now now_add c address message signature star))))"
  by (simp add: submitStar_def split: prod.splits)

text \<open>A submission leaves no continuation and the chain as it was, or begins an admission.\<close>

lemma submitStar_begin_cases:
  "(fst (snd (submitStar_begin L now now_add c address message signature star)) = [] \<and>
    snd (snd (submitStar_begin L now now_add c address message signature star)) = c) \<or>
   (fst (snd (submitStar_begin L now now_add c address message signature star)) =
      [fst (addBlock_begin L now_add
             (Block L (JObj [(''owner'', JStr address), (''star'', star)])) c)] \<and>
    snd (snd (submitStar_begin L now now_add c address message signature star)) =
      snd (snd (addBlock_begin L now_add
             (Block L (JObj [(''owner'', JStr address), (''star'', star)])) c)))"
  by (cases message)
     (auto simp: submitStar_begin_def submitStar_try_def Let_def
       split: option.splits bool.splits prod.splits)

declare step.simps [simp del]

subsection \<open>The invariant of all runs\<close>

lemma heights_bounded_validateChain:
  assumes "heights_bounded w"
  shows "heights_bounded \<lparr>object = snd (validateChain L (object w)), microtasks = microtasks w @ ks\<rparr>
         \<longleftrightarrow> (\<forall>k \<in> set ks. height (block_of k) \<le> length (chain (object w)))"
  using assms
  by (auto simp: heights_bounded_def validateChain_length validateChain_height)

lemma heights_bounded_begin:
  assumes "heights_bounded w"
  shows "heights_bounded
           \<lparr>object = snd (snd (addBlock_begin L now b (object w))),
            microtasks = microtasks w @ [fst (addBlock_begin L now b (object w))]\<rparr>"
  using heights_bounded_validateChain [OF assms, of L "[fst (addBlock_begin L now b (object w))]"]
  by (simp add: addBlock_begin_parts addBlock_fill_fields)

lemma heights_bounded_resume:
  assumes "heights_bounded w" and "microtasks w = k # ks"
  shows "heights_bounded \<lparr>object = snd (addBlock_resume k (object w)), microtasks = ks\<rparr>"
proof (cases k)
  case (AddBlock_resume r b)
  show ?thesis
  proof (cases r)
    case (Rejected err)
    with AddBlock_resume assms show ?thesis by (simp add: heights_bounded_def)
  next
    case (Fulfilled errors)
    with AddBlock_resume assms show ?thesis
      by (auto simp: heights_bounded_def nth_append)
  qed
qed

lemma heights_bounded_step:
  assumes "heights_bounded w"
  shows "heights_bounded (step L x w)"
proof (cases x)
  case (SubmitStar now now_add address message signature star)
  from submitStar_begin_cases [of L now now_add "object w" address message signature star]
  show ?thesis
  proof (elim disjE conjE)
    assume "fst (snd (submitStar_begin L now now_add (object w) address message signature star)) = []"
      and "snd (snd (submitStar_begin L now now_add (object w) address message signature star)) = object w"
    then have "step L x w = w"
      using SubmitStar by (simp add: step_SubmitStar)
    with assms show ?thesis by simp
  next
    let ?b = "Block L (JObj [(''owner'', JStr address), (''star'', star)])"
    assume "fst (snd (submitStar_begin L now now_add (object w) address message signature star)) =
        [fst (addBlock_begin L now_add ?b (object w))]"
      and "snd (snd (submitStar_begin L now now_add (object w) address message signature star)) =
        snd (snd (addBlock_begin L now_add ?b (object w)))"
    then show ?thesis
      using SubmitStar heights_bounded_begin [OF assms, of L now_add ?b]
      by (simp add: step_SubmitStar)
  qed
next
  case (AddBlock now data)
  then show ?thesis
    using heights_bounded_begin [OF assms, of L now "Block L data"]
    by (simp add: step_AddBlock)
next
  case ValidateChain
  then show ?thesis
    using heights_bounded_validateChain [OF assms, of L "[]"] by (simp add: step.simps)
next
  case (InitializeChain now)
  then show ?thesis
    using heights_bounded_begin [OF assms, of L now "Block L genesis_data"] assms
    by (simp add: step_InitializeChain step_AddBlock)
next
  case Resume
  show ?thesis
  proof (cases "microtasks w")
    case Nil
    with Resume assms show ?thesis by (simp add: step_Resume_Nil)
  next
    case (Cons k ks)
    with Resume heights_bounded_resume [OF assms Cons] show ?thesis
      by (simp add: step_Resume_Cons)
  qed
qed

lemma heights_bounded_fold:
  "heights_bounded w \<Longrightarrow> heights_bounded (fold (step L) calls w)"
  by (induction calls arbitrary: w) (simp_all add: heights_bounded_step)

lemma heights_bounded_run: "heights_bounded (run L now calls)"
proof -
  have "heights_bounded \<lparr>object = \<lparr>chain = [], chainHeight = - 1\<rparr>, microtasks = []\<rparr>"
    by (simp add: heights_bounded_def)
  then show ?thesis
    unfolding run_def Blockchain_def by (intro heights_bounded_fold heights_bounded_step)
qed

lemma run_heights:
  "p \<in> set (chain (object (run L now calls))) \<Longrightarrow>
   height p < length (chain (object (run L now calls)))"
  using heights_bounded_run [of L now calls]
  by (auto simp: heights_bounded_def in_set_conv_nth)

text \<open>On the chain of every run the traversal does not throw, so \<open>_addBlock\<close> is not rejected.\<close>

lemma run_validateChain_fulfilled:
  "\<exists>errorLog. fst (validateChain L (object (run L now calls))) = Fulfilled errorLog"
proof -
  have "chain (object (run L now calls)) = [] \<or> height (chain (object (run L now calls)) ! 0) = 0"
    using heights_bounded_run [of L now calls]
    by (cases "chain (object (run L now calls))") (auto simp: heights_bounded_def)
  then show ?thesis by (rule validateChain_fulfilled)
qed

lemma run_addBlock_never_rejects:
  "fst (addBlock L t b (object (run L now calls))) \<noteq> Rejected e"
  using run_validateChain_fulfilled [of L now calls]
  by (auto simp: addBlock_eq Let_def split: prod.splits promise.splits)

subsection \<open>The invariant of runs without overlap\<close>

lemma chain_inv_validateChain:
  assumes "chain_inv c"
  shows "chain_inv (snd (validateChain L c))"
  using assms unfolding chain_inv_def
  by (auto simp: validateChain_single validateChain_pair validate_fields)

lemma chain_inv_addBlock:
  assumes "chain_inv c" and "previousBlockHash b = None"
  shows "chain_inv (snd (snd (addBlock L now b c)))"
  using assms unfolding chain_inv_def
  by (auto simp: addBlock_eq Let_def validateChain_single validateChain_pair validate_fields
      addBlock_fill_fields)

lemma addBlock_on_pair:
  assumes "chain c = [g, b]" "height g = 0" "hash g \<noteq> None" "height b = 1"
    "previousBlockHash b = None"
  shows "addBlock L now x c =
           (Fulfilled None, addBlock_fill L now c x, c\<lparr>chain := [g, snd (validate L b)]\<rparr>)"
  using assms by (auto simp: addBlock_eq Let_def validateChain_pair)

text \<open>
  An awaited submission leaves the chain as it found it or as the awaited admission
  leaves it.
\<close>

lemma submitStar_state:
  "snd (submitStar L now now_add c address message signature star) = c \<or>
   snd (submitStar L now now_add c address message signature star) =
     snd (snd (addBlock L now_add (Block L (JObj [(''owner'', JStr address), (''star'', star)])) c))"
  using submitStar_begin_cases [of L now now_add c address message signature star]
  by (auto simp: submitStar_parts addBlock_parts)

lemma chain_inv_call_awaited:
  assumes "chain_inv c"
  shows "chain_inv (call_awaited L x c)"
proof (cases x)
  case (SubmitStar now now_add address message signature star)
  then show ?thesis
    using submitStar_state [of L now now_add c address message signature star] assms
    by (auto simp: chain_inv_addBlock Block_fields)
next
  case (AddBlock now data)
  then show ?thesis using assms by (simp add: chain_inv_addBlock Block_fields)
next
  case ValidateChain
  then show ?thesis using assms by (simp add: chain_inv_validateChain)
next
  case (InitializeChain now)
  then show ?thesis using assms by (auto simp: initializeChain_def chain_inv_def)
next
  case Resume
  then show ?thesis using assms by simp
qed

text \<open>A call followed by \<open>Resume\<close> on an empty queue is the awaited call.\<close>

lemma step_then_Resume:
  assumes "microtasks w = []"
  shows "step L Resume (step L x w) = \<lparr>object = call_awaited L x (object w), microtasks = []\<rparr>"
proof (cases x)
  case (SubmitStar now now_add address message signature star)
  from submitStar_begin_cases [of L now now_add "object w" address message signature star]
  show ?thesis
    using SubmitStar assms
    by (auto simp: step_SubmitStar step_Resume_Nil step_Resume_Cons submitStar_parts)
next
  case (AddBlock now data)
  then show ?thesis
    using assms by (simp add: step_AddBlock step_Resume_Cons addBlock_parts)
next
  case ValidateChain
  then show ?thesis using assms by (simp add: step.simps)
next
  case (InitializeChain now)
  then show ?thesis
    using assms
    by (simp add: step_InitializeChain step_AddBlock step_Resume_Cons step_Resume_Nil
        initializeChain_def addBlock_parts)
next
  case Resume
  then show ?thesis using assms by (simp add: step_Resume_Nil)
qed

lemma fold_step_awaited:
  assumes "microtasks w = []"
  shows "fold (step L) (concat (map (\<lambda>c. [c, Resume]) calls)) w =
         \<lparr>object = fold (call_awaited L) calls (object w), microtasks = []\<rparr>"
  using assms
proof (induction calls arbitrary: w)
  case Nil
  then show ?case by simp
next
  case (Cons x calls)
  have "fold (step L) (concat (map (\<lambda>c. [c, Resume]) (x # calls))) w =
        fold (step L) (concat (map (\<lambda>c. [c, Resume]) calls)) (step L Resume (step L x w))"
    by simp
  also have "\<dots> = fold (step L) (concat (map (\<lambda>c. [c, Resume]) calls))
                     \<lparr>object = call_awaited L x (object w), microtasks = []\<rparr>"
    by (simp add: step_then_Resume [OF Cons.prems])
  also have "\<dots> = \<lparr>object = fold (call_awaited L) calls (call_awaited L x (object w)),
                    microtasks = []\<rparr>"
    by (simp add: Cons.IH)
  finally show ?case by simp
qed

lemma genesis_settled:
  "step L Resume (Blockchain L now) =
     \<lparr>object = initializeChain L now \<lparr>chain = [], chainHeight = - 1\<rparr>, microtasks = []\<rparr>"
  unfolding Blockchain_def by (simp add: step_then_Resume)

lemma chain_inv_genesis:
  "chain_inv (initializeChain L now \<lparr>chain = [], chainHeight = - 1\<rparr>)"
  by (simp add: initializeChain_def addBlock_eq validateChain_Nil Let_def
      chain_inv_def addBlock_fill_fields Block_fields)

lemma chain_inv_fold:
  "chain_inv c \<Longrightarrow> chain_inv (fold (call_awaited L) calls c)"
  by (induction calls arbitrary: c) (simp_all add: chain_inv_call_awaited)

lemma run_awaited:
  "run L now (awaited calls) =
     \<lparr>object = fold (call_awaited L) calls (initializeChain L now \<lparr>chain = [], chainHeight = - 1\<rparr>),
      microtasks = []\<rparr>"
  by (simp add: run_def awaited_def genesis_settled fold_step_awaited)

lemma chain_inv_run_awaited: "chain_inv (object (run L now (awaited calls)))"
  by (simp add: run_awaited chain_inv_fold chain_inv_genesis)


subsection \<open>submitStar with a string message\<close>

text \<open>
  For a message that is a string, whatever the \<open>try\<close> block throws becomes the one
  generic error, and the chain is untouched.
\<close>

lemma submitStar_string_message_generic:
  "(\<forall>err. fst (submitStar_try L now now_add c address m signature star) = Inl err \<longrightarrow>
      submitStar L now now_add c address (JStr m) signature star =
        (Rejected submission_failed, c)) \<and>
   (\<not> within_window (currentTime L now) (passedTime L m) \<longrightarrow>
      submitStar L now now_add c address (JStr m) signature star =
        (Rejected submission_failed, c)) \<and>
   (verify L m address signature \<noteq> Some True \<longrightarrow>
      submitStar L now now_add c address (JStr m) signature star =
        (Rejected submission_failed, c)) \<and>
   (\<forall>e. fst (submitStar L now now_add c address (JStr m) signature star) = Rejected e \<longrightarrow>
      e = submission_failed)"
  by (auto simp: submitStar_def submitStar_begin_def submitStar_try_def Let_def
      split: if_splits option.splits bool.splits prod.splits sum.splits)


subsection \<open>The queries\<close>

lemma first_of_filter:
  "(case filter P xs of [] \<Rightarrow> None | x # ys \<Rightarrow> Some x) = find P xs"
  by (induction xs) simp_all

lemma getBlockByHeight_find:
  "getBlockByHeight c h = Fulfilled (find (\<lambda>p. int (height p) = h) (chain c))"
  using first_of_filter [of "\<lambda>p. int (height p) = h" "chain c"]
  by (simp add: getBlockByHeight_def split: list.splits)




lemma getStarsByWalletAddress_example:
  "getStarsByWalletAddress demo demo_five_stars ''addr1'' =
     Fulfilled [JObj [(''owner'', JStr ''addr1''), (''star'', JStr ''Vega'')],
                JObj [(''owner'', JStr ''addr1''), (''star'', JStr ''Vega'')],
                JObj [(''owner'', JStr ''addr1''), (''star'', JStr ''Vega'')]]"
  by code_simp

section \<open>The claims\<close>

subsection \<open>C1: the previous hash of an admitted block\<close>

text \<open>
  C1 says that after a successful admission, in particular a successful \<open>submitStar\<close>,
  the previous hash of the new block above genesis is the hash of the block below it,
  the tip before the admission. The admission routine never writes that field
  (\<open>addBlock_keeps_previousBlockHash\<close>). Here the code is run on a new chain whose
  genesis admission has completed and one awaited submission made 100 seconds after
  the message, with a valid signature: the
  submission is fulfilled with the block, the block is appended at height 1, its
  previous hash is still \<open>null\<close>, and the genesis block below it has a hash.
\<close>

theorem submitStar_previousBlockHash_null:
  "(case submitStar demo 1700000100123 1700000100124 demo_genesis ''addr1''
           (JStr demo_message) demo_signature (JStr ''Vega'') of
      (Fulfilled b, c') \<Rightarrow>
        chain c' = chain demo_genesis @ [b] \<and> height b = 1 \<and>
        previousBlockHash b = None \<and>
        hash (chain c' ! (height b - 1)) = hash (last (chain demo_genesis)) \<and>
        hash (chain c' ! (height b - 1)) \<noteq> None \<and>
        previousBlockHash b \<noteq> hash (chain c' ! (height b - 1))
    | (Rejected e, c') \<Rightarrow> False)"
  by code_simp

subsection \<open>C2: validation of a chain built by admissions only\<close>

text \<open>
  C2 says that \<open>validateChain()\<close> returns an empty error log on every chain reached
  through successful admissions only. On the chain made of the genesis block and one
  admitted star block the call is fulfilled with one entry, the linkage error of
  block 1.
\<close>

theorem validateChain_after_admission_reports_mismatch:
  "length (chain demo_chain) = 2 \<and>
   fst (validateChain demo demo_chain) =
     Fulfilled [hashMismatchError 1 (chain demo_chain ! 1) (chain demo_chain ! 0)] \<and>
   fst (validateChain demo demo_chain) \<noteq> Fulfilled []"
  by code_simp

subsection \<open>C3: the tamper error\<close>

text \<open>
  C3 says that for every block at an index above 0 whose \<open>validate()\<close> check is not
  true, \<open>validateChain()\<close> appends a tamper error with the block's index and current
  hash. The body of block 1 of the chain above is overwritten: \<open>validate()\<close> on that
  block resolves to false, and the log of \<open>validateChain()\<close> holds the linkage error of
  block 1 and nothing else, which is not the tamper error of that block. By
  \<open>validateChain_log_only_mismatch\<close> no chain ever gets a tamper error.
\<close>

theorem validateChain_tamper_not_reported:
  "fst (validate demo (chain demo_tampered ! 1)) = Fulfilled False \<and>
   fst (validateChain demo demo_tampered) =
     Fulfilled [hashMismatchError 1 (chain demo_tampered ! 1) (chain demo_tampered ! 0)] \<and>
   hashMismatchError 1 (chain demo_tampered ! 1) (chain demo_tampered ! 0) \<noteq>
     blockInvalidError 1 (snd (validate demo (chain demo_tampered ! 1)))"
  by code_simp

subsection \<open>C4: the five-minute window\<close>

text \<open>
  C4: when the current time in seconds and the timestamp parsed from the second
  colon-delimited field of the message are at least 300 seconds apart, \<open>submitStar\<close>
  is rejected, whatever the signature check would answer, and the chain is left as it
  was: no block is admitted.
\<close>

theorem submitStar_rejects_expired:
  assumes "currentTime L now = Some cur"
    and "passedTime L message = Some passed"
    and "300 \<le> cur - passed"
  shows "submitStar L now now_add c address (JStr message) signature star =
           (Rejected submission_failed, c)"
  using assms
  by (simp add: submitStar_def submitStar_begin_def submitStar_try_def within_window_def
      fiveMinutesInSeconds_def)

theorem submitStar_rejects_expired_witness:
  "currentTime demo 1700000301000 = Some 1700000301 \<and>
   passedTime demo demo_message = Some 1700000000 \<and>
   verify demo demo_message ''addr1'' demo_signature = Some True \<and>
   submitStar demo 1700000301000 1700000301001 demo_genesis ''addr1'' (JStr demo_message)
     demo_signature (JStr ''Vega'') = (Rejected submission_failed, demo_genesis)"
proof -
  have c: "currentTime demo 1700000301000 = Some 1700000301"
    by code_simp
  have p: "passedTime demo demo_message = Some 1700000000"
    by code_simp
  have v: "verify demo demo_message ''addr1'' demo_signature = Some True"
    by code_simp
  have e: "(300::int) \<le> 1700000301 - 1700000000"
    by simp
  from submitStar_rejects_expired [OF c p e] c p v show ?thesis
    by simp
qed

subsection \<open>C5: one generic error\<close>

text \<open>
  C5 says that every failure inside \<open>submitStar\<close>, any internal error raised during the
  workflow included, reaches the caller as the one generic submission error. The
  \<open>catch\<close> of line 136 does that for everything the \<open>try\<close> block throws
  (\<open>submitStar_string_message_generic\<close>), but line 118 reads \<open>message.split\<close> before the
  \<open>try\<close>: for a message that is \<open>null\<close> or a number the method is rejected with the
  exception that call raises, not with the generic error, whatever the chain, the
  clock and the other arguments.
\<close>

theorem submitStar_non_string_message_not_generic:
  "submitStar L now now_add c address JNull signature star = (Rejected Thrown, c) \<and>
   submitStar L now now_add c address (JNum n) signature star = (Rejected Thrown, c) \<and>
   Thrown \<noteq> submission_failed"
  by (simp add: submitStar_def submitStar_begin_def submission_failed_def)

subsection \<open>C6: the block at a height\<close>

text \<open>
  C6: for every height argument \<open>getBlockByHeight\<close> is fulfilled, never rejected, with
  the first block of the chain whose \<open>height\<close> field is the argument; when no block has
  that height the result is \<open>null\<close>, and on the chain of every run, overlapping or
  not, that is so for every argument from the chain length on.
\<close>

theorem getBlockByHeight_first_or_null:
  "getBlockByHeight c h = Fulfilled (find (\<lambda>p. int (height p) = h) (chain c)) \<and>
   ((\<forall>p \<in> set (chain c). int (height p) \<noteq> h) \<longrightarrow> getBlockByHeight c h = Fulfilled None) \<and>
   (int (length (chain (object (run L t0 calls)))) \<le> n \<longrightarrow>
      getBlockByHeight (object (run L t0 calls)) n = Fulfilled None)"
proof (intro conjI impI)
  show "getBlockByHeight c h = Fulfilled (find (\<lambda>p. int (height p) = h) (chain c))"
    by (rule getBlockByHeight_find)
next
  assume "\<forall>p \<in> set (chain c). int (height p) \<noteq> h"
  then have "find (\<lambda>p. int (height p) = h) (chain c) = None"
    by (simp add: find_None_iff)
  then show "getBlockByHeight c h = Fulfilled None"
    by (simp add: getBlockByHeight_find)
next
  assume far: "int (length (chain (object (run L t0 calls)))) \<le> n"
  have "\<forall>p \<in> set (chain (object (run L t0 calls))). int (height p) \<noteq> n"
    using run_heights [of _ L t0 calls] far by fastforce
  then have "find (\<lambda>p. int (height p) = n) (chain (object (run L t0 calls))) = None"
    by (simp add: find_None_iff)
  then show "getBlockByHeight (object (run L t0 calls)) n = Fulfilled None"
    by (simp add: getBlockByHeight_find)
qed

theorem getBlockByHeight_first_or_null_witness:
  "list_all (\<lambda>p. int (height p) \<noteq> 9) (chain demo_five_stars) \<and>
   getBlockByHeight demo_five_stars 9 = Fulfilled None \<and>
   int (length (chain (object (run demo demo_t0 (awaited [demo_submit]))))) \<le> 2 \<and>
   getBlockByHeight (object (run demo demo_t0 (awaited [demo_submit]))) 2 = Fulfilled None \<and>
   getBlockByHeight demo_five_stars 3 = Fulfilled (Some (demo_star_block 3 ''a1''))"
proof -
  have a: "\<forall>p \<in> set (chain demo_five_stars). int (height p) \<noteq> 9"
    by code_simp
  have l: "int (length (chain (object (run demo demo_t0 (awaited [demo_submit]))))) \<le> 2"
    by code_simp
  have f: "find (\<lambda>p. int (height p) = 3) (chain demo_five_stars) = Some (demo_star_block 3 ''a1'')"
    by code_simp
  note g1 = getBlockByHeight_first_or_null
    [of demo_five_stars 9 demo demo_t0 "awaited [demo_submit]" 2]
  note g2 = getBlockByHeight_first_or_null
    [of demo_five_stars 3 demo demo_t0 "awaited [demo_submit]" 2]
  from g1 a have r1: "getBlockByHeight demo_five_stars 9 = Fulfilled None"
    by blast
  from g1 l
  have r2: "getBlockByHeight (object (run demo demo_t0 (awaited [demo_submit]))) 2 = Fulfilled None"
    by blast
  from g2 f have r3: "getBlockByHeight demo_five_stars 3 = Fulfilled (Some (demo_star_block 3 ''a1''))"
    by simp
  from a have a': "list_all (\<lambda>p. int (height p) \<noteq> 9) (chain demo_five_stars)"
    by (simp add: list_all_iff)
  from a' l r1 r2 r3 show ?thesis by blast
qed

subsection \<open>C7: the stars of a wallet address\<close>


subsection \<open>C8: the genesis marker\<close>

text \<open>
  C8: for every block at height 0 whose body decodes, \<open>getBData()\<close> is fulfilled with the
  marker, not with the decoded payload.
\<close>

theorem getBData_genesis_marker:
  assumes "height b = 0" and "decode L (body b) = Some d"
  shows "getBData L b = Fulfilled genesis_marker"
  using assms by (simp add: getBData_def)

theorem getBData_genesis_marker_witness:
  "height (hd (chain demo_genesis)) = 0 \<and>
   decode demo (body (hd (chain demo_genesis))) = Some genesis_data \<and>
   genesis_data \<noteq> genesis_marker \<and>
   getBData demo (hd (chain demo_genesis)) = Fulfilled genesis_marker"
proof -
  have h: "height (hd (chain demo_genesis)) = 0"
    by code_simp
  have d: "decode demo (body (hd (chain demo_genesis))) = Some genesis_data"
    by code_simp
  have n: "genesis_data \<noteq> genesis_marker"
    by (simp add: genesis_data_def genesis_marker_def)
  from getBData_genesis_marker [OF h d] h d n show ?thesis
    by simp
qed

subsection \<open>C9: at most two blocks\<close>

text \<open>
  C9 says that every reachable chain holds at most two blocks, and that with two
  blocks every further \<open>_addBlock\<close> call leaves the blocks array unchanged. Both fail.
  After \<open>new Blockchain()\<close> followed in the same tick by an awaited \<open>submitStar\<close> and then
  a second awaited \<open>submitStar\<close>, the queue is empty and the chain holds three blocks:
  the first star read the chain length before the genesis block was pushed, so it
  sits at height 0 and the traversal skips it. And on the two-block chain a refused
  admission rewrites the stored hash of the second block.
\<close>

theorem chain_at_most_two_blocks_counterexample:
  "microtasks demo_overlap = [] \<and>
   length (chain (object demo_overlap)) = 3 \<and>
   \<not> length (chain (object demo_overlap)) \<le> 2 \<and>
   length (chain demo_chain) = 2 \<and>
   fst (addBlock demo 1700000200000
          (Block demo (JObj [(''owner'', JStr ''addr2''), (''star'', JStr ''Sirius'')]))
          demo_chain) = Fulfilled None \<and>
   hash (chain (snd (snd (addBlock demo 1700000200000
          (Block demo (JObj [(''owner'', JStr ''addr2''), (''star'', JStr ''Sirius'')]))
          demo_chain))) ! 1) \<noteq> hash (chain demo_chain ! 1)"
  by code_simp

text \<open>
  C9 as amended: when nothing overlaps (the genesis admission has completed before
  the first call, and every call is awaited before the next), the chain holds at most
  two blocks and no block has a previous hash. Once there are two, \<open>validateChain()\<close>
  reports one error, so every further \<open>_addBlock\<close> call, direct or through
  \<open>submitStar\<close>, ends without a block and without a push: it leaves the genesis block,
  the height counter and every field of the second block as they were, except the
  \<open>hash\<close> of the second block, which the \<open>validate()\<close> call of the traversal replaces
  by the digest of that block's serialisation.
\<close>

theorem awaited_chain_at_most_two_blocks:
  assumes "c = object (run L t0 (awaited calls))"
  shows "length (chain c) \<le> 2 \<and>
   (\<forall>b \<in> set (chain c). previousBlockHash b = None) \<and>
   (length (chain c) = 2 \<longrightarrow>
      (\<exists>e. fst (validateChain L c) = Fulfilled [e]) \<and>
      (\<forall>now data.
         addBlock L now (Block L data) c =
           (Fulfilled None, addBlock_fill L now c (Block L data), rehash_second L c)) \<and>
      (\<forall>now now_add address message signature star.
         snd (submitStar L now now_add c address message signature star) = c \<or>
         snd (submitStar L now now_add c address message signature star) = rehash_second L c))"
proof -
  have inv: "chain_inv c"
    unfolding assms by (rule chain_inv_run_awaited)
  have len: "length (chain c) \<le> 2"
    using inv unfolding chain_inv_def by auto
  have prev: "\<forall>b \<in> set (chain c). previousBlockHash b = None"
    using inv unfolding chain_inv_def by auto
  have two: "(\<exists>e. fst (validateChain L c) = Fulfilled [e]) \<and>
      (\<forall>now data.
         addBlock L now (Block L data) c =
           (Fulfilled None, addBlock_fill L now c (Block L data), rehash_second L c)) \<and>
      (\<forall>now now_add address message signature star.
         snd (submitStar L now now_add c address message signature star) = c \<or>
         snd (submitStar L now now_add c address message signature star) = rehash_second L c)"
    if l2: "length (chain c) = 2"
  proof -
    from inv l2 obtain g b where gb: "chain c = [g, b]" "height g = 0" "hash g \<noteq> None"
      "height b = 1" "previousBlockHash b = None"
      unfolding chain_inv_def by auto
    have r: "rehash_second L c = c\<lparr>chain := [g, snd (validate L b)]\<rparr>"
      using gb(1) by (simp add: rehash_second_def validate_overwrites)
    have v: "\<exists>e. fst (validateChain L c) = Fulfilled [e]"
      using gb by (auto simp: validateChain_pair)
    have a: "addBlock L now x c = (Fulfilled None, addBlock_fill L now c x, rehash_second L c)"
      for now x
      by (simp add: addBlock_on_pair [OF gb] r)
    have s: "snd (submitStar L now now_add c address message signature star) = c \<or>
             snd (submitStar L now now_add c address message signature star) = rehash_second L c"
      for now now_add address message signature star
      using submitStar_state [of L now now_add c address message signature star]
      by (auto simp: a)
    from v a s show ?thesis by blast
  qed
  from len prev two show ?thesis
    by blast
qed

theorem awaited_chain_at_most_two_blocks_witness:
  "length (chain demo_chain) = 2 \<and>
   addBlock demo 1700000200000
     (Block demo (JObj [(''owner'', JStr ''addr2''), (''star'', JStr ''Sirius'')])) demo_chain =
     (Fulfilled None,
      addBlock_fill demo 1700000200000 demo_chain
        (Block demo (JObj [(''owner'', JStr ''addr2''), (''star'', JStr ''Sirius'')])),
      rehash_second demo demo_chain) \<and>
   length (chain (rehash_second demo demo_chain)) = 2 \<and>
   chainHeight (rehash_second demo demo_chain) = chainHeight demo_chain"
proof -
  have l: "length (chain demo_chain) = 2"
    by code_simp
  have r: "length (chain (rehash_second demo demo_chain)) = 2 \<and>
           chainHeight (rehash_second demo demo_chain) = chainHeight demo_chain"
    by (simp add: rehash_second_def)
  from awaited_chain_at_most_two_blocks [OF demo_chain_def] l r show ?thesis
    by blast
qed

subsection \<open>C10: validate() on an admitted block\<close>

text \<open>
  C10: a block constructed and admitted by an awaited \<open>_addBlock\<close> carries the
  digest of its serialisation with the hash field still \<open>null\<close>; \<open>validate()\<close> on it
  digests the serialisation that includes the stored hash, a different text. Unless
  the digest function sends these two texts to the same value, the call resolves to
  false, and it replaces the stored hash by the new digest, which differs from the
  old one.
\<close>

theorem validate_admitted_block_false:
  assumes "fst (addBlock L now (Block L data) c) = Fulfilled (Some b)"
    and "no_collision L (JSON_stringify (b\<lparr>hash := None\<rparr>)) (JSON_stringify b)"
  shows "hash b = Some (SHA256 L (JSON_stringify (b\<lparr>hash := None\<rparr>))) \<and>
         JSON_stringify (b\<lparr>hash := None\<rparr>) \<noteq> JSON_stringify b \<and>
         validate L b = (Fulfilled False, b\<lparr>hash := Some (SHA256 L (JSON_stringify b))\<rparr>) \<and>
         hash (snd (validate L b)) \<noteq> hash b"
proof -
  from assms(1) have b: "b = addBlock_fill L now c (Block L data)"
    by (auto simp: addBlock_eq Let_def split: prod.splits promise.splits if_splits)
  have h: "hash b = Some (SHA256 L (JSON_stringify (b\<lparr>hash := None\<rparr>)))"
    unfolding b by (simp add: addBlock_fill_def Block_def Let_def)
  then obtain d where d: "hash b = Some d"
    by blast
  then have "b = (b\<lparr>hash := None\<rparr>)\<lparr>hash := Some d\<rparr>"
    by simp
  then have diff: "JSON_stringify (b\<lparr>hash := None\<rparr>) \<noteq> JSON_stringify b"
    using JSON_stringify_hash_differs [of "b\<lparr>hash := None\<rparr>" d] by simp
  with assms(2) have "SHA256 L (JSON_stringify (b\<lparr>hash := None\<rparr>)) \<noteq> SHA256 L (JSON_stringify b)"
    by (auto simp: no_collision_def)
  with h diff show ?thesis
    by (simp add: validate_def Let_def)
qed

theorem validate_admitted_block_false_witness:
  "fst (validate demo
         (addBlock_fill demo 1700000100124 demo_genesis
            (Block demo (JObj [(''owner'', JStr ''addr1''), (''star'', JStr ''Vega'')]))))
     = Fulfilled False"
proof -
  let ?d = "JObj [(''owner'', JStr ''addr1''), (''star'', JStr ''Vega'')]"
  let ?b = "addBlock_fill demo 1700000100124 demo_genesis (Block demo ?d)"
  have a: "fst (addBlock demo 1700000100124 (Block demo ?d) demo_genesis)
             = Fulfilled (Some ?b)"
    by code_simp
  have n: "no_collision demo (JSON_stringify (?b\<lparr>hash := None\<rparr>)) (JSON_stringify ?b)"
    by (simp add: no_collision_def demo_def)
  from validate_admitted_block_false [OF a n] show ?thesis
    by simp
qed

end
